theory Spec2Isabelle
  imports Main "HOL-Library.Word"
begin

section \<open>Data model of package pvss\<close>

text \<open>
  Go's \<open>big.Int\<close> is an unbounded integer and is modelled as \<open>int\<close>; a \<open>[]byte\<close> is a
  list of 8-bit words. The Go structs become records. The fields of \<open>Point\<close> and
  \<open>DLEQProof\<close> carry a prefix (\<open>px\<close> for \<open>Point.x\<close>, \<open>proof_c\<close> for \<open>DLEQProof.c\<close>),
  because a one-letter field name would no longer be usable as a variable.
\<close>

type_synonym byte = "8 word"

record Point =
  px :: int
  py :: int

record NodeList =
  Nodes :: "Point list"

record PrimaryPolynomial =
  coeff :: "int list"
  threshold :: int

record PrimaryShares =
  Index :: int
  Value :: int

record DLEQProof =
  proof_c :: int
  proof_r :: int
  proof_vG :: Point
  proof_vH :: Point
  proof_xG :: Point
  proof_xH :: Point

text \<open>The part of \<open>ecdsa.PrivateKey\<close> that \<open>DecShare\<close> reads: the scalar \<open>D\<close>.\<close>

record PrivateKey =
  PublicKey :: Point
  D :: int

text \<open>Run-time panics of the Go code are values of this type.\<close>

datatype error = IndexOutOfRange | NegativeLen

section \<open>Package-level constants\<close>

definition fieldOrder :: int where
  "fieldOrder = 0xfffffffffffffffffffffffffffffffffffffffffffffffffffffffefffffc2f"

definition generatorOrder :: int where
  "generatorOrder = 0xfffffffffffffffffffffffffffffffebaaedce6af48a03bbfd25e8cd0364141"

definition sqRoot :: int where
  "sqRoot = 0x3fffffffffffffffffffffffffffffffffffffffffffffffffffffffbfffff0c"

section \<open>The library operations the package calls\<close>

text \<open>
  \<open>math/big\<close>: \<open>Mod\<close> is the Euclidean modulus, which for the positive moduli used here
  is HOL's \<open>mod\<close>. \<open>Exp x y m\<close> is \<open>x ** y mod m\<close>; the package only calls it with a
  positive exponent and the modulus \<open>fieldOrder\<close>.
\<close>

definition Exp :: "int \<Rightarrow> int \<Rightarrow> int \<Rightarrow> int" where
  "Exp x y m = x ^ nat y mod m"

text \<open>\<open>SetBytes\<close> reads a big-endian unsigned integer.\<close>

definition SetBytes :: "byte list \<Rightarrow> int" where
  "SetBytes bs = foldl (\<lambda>acc b. acc * 256 + uint b) 0 bs"

text \<open>\<open>Bytes\<close> is the big-endian absolute value without leading zero bytes.\<close>

function Bytes_nat :: "nat \<Rightarrow> byte list" where
  "Bytes_nat n = (if n = 0 then [] else Bytes_nat (n div 256) @ [of_nat (n mod 256)])"
  by pat_completeness auto
termination
  by (relation "measure (\<lambda>n. n)") auto

declare Bytes_nat.simps [simp del]

definition Bytes :: "int \<Rightarrow> byte list" where
  "Bytes n = Bytes_nat (nat \<bar>n\<bar>)"

text \<open>
  \<open>ModInverse g n\<close> is the inverse of \<open>g\<close> in the ring of integers modulo \<open>n\<close>, and
  \<open>nil\<close> (here \<open>None\<close>) when \<open>g\<close> and \<open>n\<close> are not coprime. Only called with a positive
  \<open>g\<close>.
\<close>

definition ModInverse :: "int \<Rightarrow> int \<Rightarrow> int option" where
  "ModInverse g n =
     (if gcd g n = 1 then Some (fst (bezw (nat g) (nat \<bar>n\<bar>)) mod \<bar>n\<bar>) else None)"

text \<open>
  The curve \<open>s = secp256k1.S256()\<close> and the Keccak-256 sponge come from other
  packages. They are parameters of the model: a curve is the pair of scalar
  multiplications the package calls, each taking the scalar as big-endian bytes, and
  the sponge is a function from the bytes written to the digest. The curve's point
  addition \<open>Add\<close> is not called by the package; the verification equations of the
  specification need it.
\<close>

record Curve =
  ScalarBaseMult :: "byte list \<Rightarrow> int \<times> int"
  ScalarMult :: "int \<Rightarrow> int \<Rightarrow> byte list \<Rightarrow> int \<times> int"
  Add :: "int \<Rightarrow> int \<Rightarrow> int \<Rightarrow> int \<Rightarrow> int \<times> int"

definition Keccak256 :: "(byte list \<Rightarrow> byte list) \<Rightarrow> byte list list \<Rightarrow> byte list" where
  "Keccak256 sponge data = sponge (concat data)"

section \<open>hashToPoint\<close>

text \<open>
  The search loop has no bound in the source (\<open>for { ... }\<close>), so it is a partial
  function: \<open>None\<close> stands for a run that never returns.
\<close>

partial_function (option) hashToPoint_loop :: "int \<Rightarrow> Point option" where
  "hashToPoint_loop x =
     (let beta = (Exp x 3 fieldOrder + 7) mod fieldOrder;
          y = Exp beta sqRoot fieldOrder
      in if Exp y 2 fieldOrder = beta then Some \<lparr>px = x, py = y\<rparr>
         else hashToPoint_loop (x + 1))"

definition hashToPoint :: "(byte list \<Rightarrow> byte list) \<Rightarrow> byte list \<Rightarrow> Point option" where
  "hashToPoint sponge data = hashToPoint_loop (SetBytes (Keccak256 sponge [data]))"

section \<open>polyEval, getShares, getCommit\<close>

text \<open>
  \<open>polyEval\<close> reads \<open>coeff[0]\<close> before the loop and \<open>coeff[i]\<close> inside it; an index
  beyond the slice panics. The loop multiplies the current \<open>xi\<close> with \<open>coeff[i]\<close>, adds
  and reduces, and then replaces \<open>xi\<close> by its square. The arguments \<open>x\<close> and
  \<open>threshold\<close> are Go \<open>int\<close>s; they are only compared, incremented below a bound and
  converted to \<open>big.Int\<close>, so their values are taken as integers. The calls of
  \<open>fmt.Println\<close> are left out. The accumulator \<open>sum\<close> is called \<open>summ\<close> here.
\<close>

function polyEval_loop :: "PrimaryPolynomial \<Rightarrow> int \<Rightarrow> int \<Rightarrow> int \<Rightarrow> error + int" where
  "polyEval_loop polynomial i xi summ =
     (if i < threshold polynomial then
        (if nat i < length (coeff polynomial) then
           polyEval_loop polynomial (i + 1) (xi * xi mod fieldOrder)
             ((summ + xi * coeff polynomial ! nat i) mod fieldOrder)
         else Inl IndexOutOfRange)
      else Inr summ)"
  by pat_completeness auto
termination
  by (relation "measure (\<lambda>(polynomial, i, xi, summ). nat (threshold polynomial - i))") auto

declare polyEval_loop.simps [simp del]

definition polyEval :: "PrimaryPolynomial \<Rightarrow> int \<Rightarrow> error + int" where
  "polyEval polynomial x =
     (case coeff polynomial of
        [] \<Rightarrow> Inl IndexOutOfRange
      | c0 # _ \<Rightarrow> polyEval_loop polynomial 1 x (0 + c0))"

text \<open>Filling a slice element by element stops at the first panic.\<close>

fun collect :: "(error + 'a) list \<Rightarrow> error + 'a list" where
  "collect [] = Inr []"
| "collect (r # rs) =
     (case r of
        Inl e \<Rightarrow> Inl e
      | Inr v \<Rightarrow> (case collect rs of Inl e \<Rightarrow> Inl e | Inr vs \<Rightarrow> Inr (v # vs)))"

definition getShares :: "PrimaryPolynomial \<Rightarrow> int \<Rightarrow> error + int list" where
  "getShares polynomial n =
     (if n < 0 then Inl NegativeLen
      else collect (map (\<lambda>i. polyEval polynomial (int i + 1)) [0..<nat n]))"

text \<open>The pair of coordinates a curve operation returns, stored as a \<open>Point\<close>.\<close>

definition mkPoint :: "int \<times> int \<Rightarrow> Point" where
  "mkPoint xy = \<lparr>px = fst xy, py = snd xy\<rparr>"

definition getCommit :: "Curve \<Rightarrow> PrimaryPolynomial \<Rightarrow> int \<Rightarrow> error + Point list" where
  "getCommit s polynomial threshold' =
     (if threshold' < 0 then Inl NegativeLen
      else collect (map (\<lambda>i. if i < length (coeff polynomial)
                               then Inr (mkPoint (ScalarBaseMult s (Bytes (coeff polynomial ! i))))
                               else Inl IndexOutOfRange) [0..<nat threshold']))"

section \<open>createDlEQProof, batchCreateDLEQProof\<close>

text \<open>
  \<open>randomBigInt\<close> draws from \<open>crypto/rand\<close>; the value it returns is the argument \<open>v\<close>
  of the model. The challenge bytes are the coordinates of \<open>xG\<close>, \<open>xH\<close>, \<open>vG\<close>, \<open>vH\<close>,
  each written by \<open>Bytes\<close>. The response is \<open>c * secret\<close> reduced modulo
  \<open>fieldOrder\<close> and then subtracted from \<open>v\<close>, with no further reduction.
\<close>

definition createDlEQProof ::
    "Curve \<Rightarrow> (byte list \<Rightarrow> byte list) \<Rightarrow> int \<Rightarrow> int \<Rightarrow> Point \<Rightarrow> DLEQProof" where
  "createDlEQProof s sponge v secret nodePubKey =
     (let xG = mkPoint (ScalarBaseMult s (Bytes secret));
          xH = mkPoint (ScalarMult s (px nodePubKey) (py nodePubKey) (Bytes secret));
          vG = mkPoint (ScalarBaseMult s (Bytes v));
          vH = mkPoint (ScalarMult s (px nodePubKey) (py nodePubKey) (Bytes v));
          cb = concat (map (\<lambda>element. Bytes (px element) @ Bytes (py element)) [xG, xH, vG, vH]);
          hashed = Keccak256 sponge [cb];
          c = SetBytes hashed;
          r = v - c * secret mod fieldOrder
      in \<lparr>proof_c = c, proof_r = r, proof_vG = vG, proof_vH = vH, proof_xG = xG, proof_xH = xH\<rparr>)"

text \<open>
  \<open>batchCreateDLEQProof\<close> returns \<open>nil\<close> (here \<open>None\<close>) when the lengths differ.
  Otherwise it allocates a slice of \<open>len(nodes)\<close> nil pointers and fills it by index;
  the \<open>i\<close>-th call of \<open>createDlEQProof\<close> makes the \<open>i\<close>-th random draw \<open>rnd i\<close>.
\<close>

function batchCreateDLEQProof_loop ::
    "Curve \<Rightarrow> (byte list \<Rightarrow> byte list) \<Rightarrow> (nat \<Rightarrow> int) \<Rightarrow> Point list \<Rightarrow> PrimaryShares list \<Rightarrow>
     nat \<Rightarrow> DLEQProof option list \<Rightarrow> error + DLEQProof option list" where
  "batchCreateDLEQProof_loop s sponge rnd nodes shares i proofs =
     (if i < length nodes then
        (if i < length shares \<and> i < length proofs then
           batchCreateDLEQProof_loop s sponge rnd nodes shares (i + 1)
             (proofs[i := Some (createDlEQProof s sponge (rnd i) (Value (shares ! i)) (nodes ! i))])
         else Inl IndexOutOfRange)
      else Inr proofs)"
  by pat_completeness auto
termination
  by (relation "measure (\<lambda>(s, sponge, rnd, nodes, shares, i, proofs). length nodes - i)") auto

declare batchCreateDLEQProof_loop.simps [simp del]

definition batchCreateDLEQProof ::
    "Curve \<Rightarrow> (byte list \<Rightarrow> byte list) \<Rightarrow> (nat \<Rightarrow> int) \<Rightarrow> Point list \<Rightarrow> PrimaryShares list \<Rightarrow>
     error + DLEQProof option list option" where
  "batchCreateDLEQProof s sponge rnd nodes shares =
     (if length nodes \<noteq> length shares then Inr None
      else (case batchCreateDLEQProof_loop s sponge rnd nodes shares 0
                   (replicate (length nodes) None) of
              Inl e \<Rightarrow> Inl e
            | Inr proofs \<Rightarrow> Inr (Some proofs)))"

section \<open>encShares, DecShare\<close>

text \<open>
  \<open>encShares\<close> has no result in Go: it builds the polynomial, the shares and the
  commitments and prints \<open>encryptedShares\<close>, \<open>shares\<close> and \<open>commits\<close>. The model returns
  the three printed values. \<open>encryptedShares\<close> is allocated with \<open>len(nodes)\<close> zero
  values and never written. The coefficient \<open>coeff[i]\<close>, \<open>i \<ge> 1\<close>, is the random draw
  \<open>rnd (i - 1)\<close>; \<open>make\<close> panics on a negative length and \<open>coeff[0] = secret\<close> panics
  on an empty slice.
\<close>

definition encShares ::
    "Curve \<Rightarrow> (nat \<Rightarrow> int) \<Rightarrow> Point list \<Rightarrow> int \<Rightarrow> int \<Rightarrow> error + int list \<times> int list \<times> Point list" where
  "encShares s rnd nodes secret threshold' =
     (let n = int (length nodes);
          encryptedShares = replicate (nat n) (0::int)
      in if threshold' < 0 then Inl NegativeLen
         else if threshold' = 0 then Inl IndexOutOfRange
         else
           (let coeff' = secret # map (\<lambda>i. rnd (i - 1)) [1..<nat threshold'];
                polynomial = \<lparr>coeff = coeff', threshold = threshold'\<rparr>
            in case getShares polynomial n of
                 Inl e \<Rightarrow> Inl e
               | Inr shares \<Rightarrow>
                   (case getCommit s polynomial threshold' of
                      Inl e \<Rightarrow> Inl e
                    | Inr commits \<Rightarrow> Inr (encryptedShares, shares, commits))))"

text \<open>
  \<open>DecShare\<close> computes \<open>ModInverse(generatorOrder, key.D)\<close> into a local that is not
  used again, and returns a fresh \<open>big.Int\<close>, which is zero.
\<close>

definition DecShare :: "int \<Rightarrow> int \<Rightarrow> int \<Rightarrow> PrivateKey \<Rightarrow> int" where
  "DecShare encShareX encShareY consistencyProof key =
     (let modInv = ModInverse generatorOrder (D key);
          i = (0::int)
      in i)"

section \<open>Polynomial evaluation as the specification words it\<close>

text \<open>
  The specification's \<open>evaluate(poly, i)\<close>, which the source's \<open>polyEval\<close> is compared
  with. Horner's method over the group order: start from the highest coefficient, multiply by
  the index and add the next lower coefficient, reducing modulo \<open>generatorOrder\<close> after
  each step.
\<close>

definition evaluate_spec :: "int list \<Rightarrow> int \<Rightarrow> int" where
  "evaluate_spec poly i = foldr (\<lambda>ck acc. (acc * i + ck) mod generatorOrder) poly 0"

section \<open>Proof verification as the specification words it\<close>

text \<open>
  The source has no verification routine. The specification accepts a proof for the base
  point \<open>Y\<close> when \<open>r * G + c * xG = vG\<close>, \<open>r * Y + c * xH = vH\<close> and the challenge
  recomputed from \<open>xG\<close>, \<open>xH\<close>, \<open>vG\<close>, \<open>vH\<close> equals \<open>c\<close>. The response and the
  challenge enter the scalar multiplications as scalars, that is, reduced modulo
  \<open>generatorOrder\<close>; the challenge bytes are encoded as \<open>createDlEQProof\<close> encodes them.
\<close>

definition Verify_spec :: "Curve \<Rightarrow> (byte list \<Rightarrow> byte list) \<Rightarrow> DLEQProof \<Rightarrow> Point \<Rightarrow> bool" where
  "Verify_spec s sponge prf Y =
     (let rs = Bytes (proof_r prf mod generatorOrder);
          cs = Bytes (proof_c prf mod generatorOrder);
          rG = ScalarBaseMult s rs;
          cxG = ScalarMult s (px (proof_xG prf)) (py (proof_xG prf)) cs;
          rY = ScalarMult s (px Y) (py Y) rs;
          cxH = ScalarMult s (px (proof_xH prf)) (py (proof_xH prf)) cs;
          cb = concat (map (\<lambda>element. Bytes (px element) @ Bytes (py element))
                 [proof_xG prf, proof_xH prf, proof_vG prf, proof_vH prf]);
          c' = SetBytes (Keccak256 sponge [cb])
      in mkPoint (Add s (fst rG) (snd rG) (fst cxG) (snd cxG)) = proof_vG prf \<and>
         mkPoint (Add s (fst rY) (snd rY) (fst cxH) (snd cxH)) = proof_vH prf \<and>
         c' = proof_c prf)"

text \<open>
  What the verification equations need of the curve: it is a cyclic group of order
  \<open>generatorOrder\<close>. \<open>mult_G a\<close> is the point \<open>a * G\<close>, two multiples of \<open>G\<close> are equal
  exactly when the scalars agree modulo \<open>generatorOrder\<close>, and the three curve operations
  act on multiples of \<open>G\<close> as multiplication and addition of scalars.
\<close>

definition cyclic_group :: "Curve \<Rightarrow> (int \<Rightarrow> int \<times> int) \<Rightarrow> bool" where
  "cyclic_group s mult_G \<longleftrightarrow>
     (\<forall>a b. (mult_G a = mult_G b) = (a mod generatorOrder = b mod generatorOrder)) \<and>
     (\<forall>k. ScalarBaseMult s k = mult_G (SetBytes k)) \<and>
     (\<forall>a k. ScalarMult s (fst (mult_G a)) (snd (mult_G a)) k = mult_G (a * SetBytes k)) \<and>
     (\<forall>a b. Add s (fst (mult_G a)) (snd (mult_G a)) (fst (mult_G b)) (snd (mult_G b)) =
            mult_G (a + b))"

section \<open>Vocabulary for the proofs and examples\<close>

text \<open>
  The same loop cut off after \<open>n\<close> iterations, used to count iterations:
  \<open>hashToPoint_iter n x\<close> is \<open>None\<close> when the first \<open>n\<close> candidates are all rejected.
\<close>

fun hashToPoint_iter :: "nat \<Rightarrow> int \<Rightarrow> Point option" where
  "hashToPoint_iter 0 x = None"
| "hashToPoint_iter (Suc n) x =
     (let beta = (Exp x 3 fieldOrder + 7) mod fieldOrder;
          y = Exp beta sqRoot fieldOrder
      in if Exp y 2 fieldOrder = beta then Some \<lparr>px = x, py = y\<rparr>
         else hashToPoint_iter n (x + 1))"

text \<open>Proof vocabulary: the right-hand side of the curve equation and the loop's test.\<close>

definition curve_rhs :: "int \<Rightarrow> int" where
  "curve_rhs x = (Exp x 3 fieldOrder + 7) mod fieldOrder"

definition accepted :: "int \<Rightarrow> bool" where
  "accepted x = (Exp (Exp (curve_rhs x) sqRoot fieldOrder) 2 fieldOrder = curve_rhs x)"

text \<open>An abscissa whose curve point has ordinate 1: a cube root of \<open>-6\<close> modulo \<open>fieldOrder\<close>.\<close>

definition unit_abscissa :: int where
  "unit_abscissa = 0x1fe1e5ef3fceb5c135ab7741333ce5a6e80d68167653f6b2b24bcbcfaaaff507"

text \<open>A stand-in sponge for the examples: its digest is the 32 bytes of \<open>unit_abscissa\<close>.\<close>

definition unit_sponge :: "byte list \<Rightarrow> byte list" where
  "unit_sponge data =
     [0x1f, 0xe1, 0xe5, 0xef, 0x3f, 0xce, 0xb5, 0xc1, 0x35, 0xab, 0x77, 0x41, 0x33, 0x3c, 0xe5, 0xa6,
      0xe8, 0x0d, 0x68, 0x16, 0x76, 0x53, 0xf6, 0xb2, 0xb2, 0x4b, 0xcb, 0xcf, 0xaa, 0xaf, 0xf5, 0x07]"

text \<open>
  The Keccak-256 digests of the challenge bytes of two proofs on secp256k1 with node key
  \<open>G\<close> and nonce 1: \<open>digest_a\<close> for the secret 1, \<open>digest_b\<close> for the secret 3.
\<close>

definition digest_a :: "byte list" where
  "digest_a =
     [0xd3, 0xbb, 0x96, 0xcd, 0x73, 0x83, 0x4a, 0xde, 0x31, 0x1e, 0x9a, 0x00, 0x6e, 0x78, 0x7a, 0xef,
      0xc0, 0x9e, 0x7a, 0xc9, 0x16, 0x5a, 0x0e, 0x25, 0x56, 0xf2, 0x83, 0x3b, 0xec, 0x41, 0x55, 0xfc]"

definition digest_b :: "byte list" where
  "digest_b =
     [0x84, 0x31, 0xd2, 0x2c, 0x7a, 0x96, 0x49, 0x5b, 0x44, 0x2b, 0x92, 0x57, 0x0f, 0x51, 0xf0, 0xe4,
      0x69, 0x7f, 0xe1, 0x63, 0x67, 0xf9, 0x44, 0x5b, 0xab, 0x52, 0xa2, 0x5e, 0xe0, 0x06, 0xbb, 0xd0]"

definition sponge_a :: "byte list \<Rightarrow> byte list" where
  "sponge_a cb = digest_a"

definition sponge_b :: "byte list \<Rightarrow> byte list" where
  "sponge_b cb = digest_b"

text \<open>
  A stand-in for the curve in the examples: the integers modulo \<open>generatorOrder\<close> under
  addition, with \<open>G = 1\<close>, which is a cyclic group of that order.
\<close>

definition toy_mult :: "int \<Rightarrow> int \<times> int" where
  "toy_mult a = (a mod generatorOrder, 0)"

definition toy_curve :: Curve where
  "toy_curve =
     \<lparr>ScalarBaseMult = (\<lambda>k. toy_mult (SetBytes k)),
      ScalarMult = (\<lambda>x y k. toy_mult (x * SetBytes k)),
      Add = (\<lambda>x1 y1 x2 y2. toy_mult (x1 + x2))\<rparr>"


section \<open>Properties of hashToPoint\<close>

lemma fieldOrder_pos: "0 < fieldOrder"
  by (simp add: fieldOrder_def)

lemma hashToPoint_loop_unfold:
  "hashToPoint_loop x =
     (if accepted x then Some \<lparr>px = x, py = Exp (curve_rhs x) sqRoot fieldOrder\<rparr>
      else hashToPoint_loop (x + 1))"
  by (subst hashToPoint_loop.simps) (simp add: accepted_def curve_rhs_def Let_def)

lemma hashToPoint_iter_unfold:
  "hashToPoint_iter (Suc n) x =
     (if accepted x then Some \<lparr>px = x, py = Exp (curve_rhs x) sqRoot fieldOrder\<rparr>
      else hashToPoint_iter n (x + 1))"
  by (simp add: accepted_def curve_rhs_def Let_def)

lemma curve_rhs_cong:
  assumes "x mod fieldOrder = x' mod fieldOrder"
  shows "curve_rhs x = curve_rhs x'"
proof -
  have "x ^ 3 mod fieldOrder = (x mod fieldOrder) ^ 3 mod fieldOrder"
    by (simp add: power_mod)
  also have "\<dots> = x' ^ 3 mod fieldOrder"
    by (simp add: assms power_mod)
  finally show ?thesis
    by (simp add: curve_rhs_def Exp_def)
qed

lemma accepted_cong:
  "x mod fieldOrder = x' mod fieldOrder \<Longrightarrow> accepted x = accepted x'"
  by (simp add: accepted_def curve_rhs_cong [of x x'])

lemma unit_abscissa_cube:
  "unit_abscissa * unit_abscissa * unit_abscissa + 7 =
     25899507534701520581795134778160311015495504093523267263232233975490419224647606583316828070306725531077228335006842549734466553100443339289797036604723
       * fieldOrder + 1"
  by (simp add: unit_abscissa_def fieldOrder_def)

lemma curve_rhs_unit_abscissa: "curve_rhs unit_abscissa = 1"
proof -
  have "unit_abscissa ^ 3 + 7 =
     25899507534701520581795134778160311015495504093523267263232233975490419224647606583316828070306725531077228335006842549734466553100443339289797036604723
       * fieldOrder + 1"
    using unit_abscissa_cube by (simp add: power3_eq_cube)
  then have "(unit_abscissa ^ 3 + 7) mod fieldOrder = 1 mod fieldOrder"
    by (simp only: mod_mult_self3)
  moreover have "(1::int) mod fieldOrder = 1"
    using fieldOrder_pos by (simp add: fieldOrder_def)
  ultimately show ?thesis
    by (simp add: curve_rhs_def Exp_def mod_add_left_eq)
qed

lemma accepted_unit_abscissa: "accepted unit_abscissa"
proof -
  have "(1::int) mod fieldOrder = 1"
    by (simp add: fieldOrder_def)
  then show ?thesis
    by (simp add: accepted_def curve_rhs_unit_abscissa Exp_def)
qed

lemma accepted_of_residue:
  assumes "(unit_abscissa - x) mod fieldOrder = 0"
  shows "accepted x"
proof -
  from assms have "fieldOrder dvd unit_abscissa - x"
    by (simp add: dvd_eq_mod_eq_0)
  then have "unit_abscissa mod fieldOrder = x mod fieldOrder"
    by (simp add: mod_eq_dvd_iff)
  then show ?thesis
    using accepted_cong [of x unit_abscissa] accepted_unit_abscissa by simp
qed

lemma residue_step:
  assumes "(unit_abscissa - x) mod fieldOrder \<noteq> 0"
  shows "(unit_abscissa - (x + 1)) mod fieldOrder = (unit_abscissa - x) mod fieldOrder - 1"
proof -
  let ?d = "(unit_abscissa - x) mod fieldOrder"
  have range: "0 \<le> ?d" "?d < fieldOrder"
    using fieldOrder_pos by simp_all
  have "(unit_abscissa - (x + 1)) mod fieldOrder = (?d - 1) mod fieldOrder"
    by (simp add: mod_diff_left_eq algebra_simps)
  also have "\<dots> = ?d - 1"
    using range assms by (intro mod_pos_pos_trivial) linarith+
  finally show ?thesis .
qed

lemma hashToPoint_iter_mono:
  "hashToPoint_iter n x = Some pt \<Longrightarrow> n \<le> m \<Longrightarrow> hashToPoint_iter m x = Some pt"
proof (induction n arbitrary: m x)
  case 0
  then show ?case by simp
next
  case (Suc n)
  from Suc.prems(2) obtain m' where m: "m = Suc m'" and le: "n \<le> m'"
    by (cases m) auto
  show ?case
  proof (cases "accepted x")
    case True
    with Suc.prems(1) show ?thesis
      unfolding m by (simp only: hashToPoint_iter_unfold if_True)
  next
    case False
    with Suc.prems(1) have "hashToPoint_iter n (x + 1) = Some pt"
      by (simp only: hashToPoint_iter_unfold if_False)
    then have "hashToPoint_iter m' (x + 1) = Some pt"
      using le by (rule Suc.IH)
    with False show ?thesis
      unfolding m by (simp only: hashToPoint_iter_unfold if_False)
  qed
qed

lemma hashToPoint_loop_search:
  "nat ((unit_abscissa - x) mod fieldOrder) = d \<Longrightarrow>
   \<exists>pt. hashToPoint_loop x = Some pt \<and> hashToPoint_iter (Suc d) x = Some pt \<and>
        accepted (px pt) \<and> py pt = Exp (curve_rhs (px pt)) sqRoot fieldOrder \<and>
        x \<le> px pt \<and> px pt \<le> x + int d"
proof (induction d arbitrary: x)
  case 0
  have "0 \<le> (unit_abscissa - x) mod fieldOrder"
    using fieldOrder_pos by simp
  with 0 have "(unit_abscissa - x) mod fieldOrder = 0"
    by simp
  then have acc: "accepted x"
    by (rule accepted_of_residue)
  let ?pt = "\<lparr>px = x, py = Exp (curve_rhs x) sqRoot fieldOrder\<rparr>"
  have "hashToPoint_loop x = Some ?pt"
    using acc by (subst hashToPoint_loop_unfold) simp
  moreover have "hashToPoint_iter (Suc 0) x = Some ?pt"
    using acc by (simp only: hashToPoint_iter_unfold if_True)
  ultimately show ?case
    using acc by (intro exI [of _ ?pt]) simp
next
  case (Suc d)
  show ?case
  proof (cases "accepted x")
    case True
    let ?pt = "\<lparr>px = x, py = Exp (curve_rhs x) sqRoot fieldOrder\<rparr>"
    have "hashToPoint_loop x = Some ?pt"
      using True by (subst hashToPoint_loop_unfold) simp
    moreover have "hashToPoint_iter (Suc (Suc d)) x = Some ?pt"
      using True by (simp only: hashToPoint_iter_unfold if_True)
    ultimately show ?thesis
      using True by (intro exI [of _ ?pt]) simp
  next
    case False
    from Suc.prems have nz: "(unit_abscissa - x) mod fieldOrder \<noteq> 0"
      by auto
    have "nat ((unit_abscissa - (x + 1)) mod fieldOrder) = d"
      using Suc.prems by (simp only: residue_step [OF nz])
    from Suc.IH [OF this] obtain pt where
      pt: "hashToPoint_loop (x + 1) = Some pt" "hashToPoint_iter (Suc d) (x + 1) = Some pt"
        "accepted (px pt)" "py pt = Exp (curve_rhs (px pt)) sqRoot fieldOrder"
        "x + 1 \<le> px pt" "px pt \<le> x + 1 + int d"
      by blast
    have "hashToPoint_loop x = Some pt"
      using False pt(1) by (subst hashToPoint_loop_unfold) simp
    moreover have "hashToPoint_iter (Suc (Suc d)) x = Some pt"
      using False pt(2) by (simp only: hashToPoint_iter_unfold if_False)
    ultimately show ?thesis
      using pt by (intro exI [of _ pt]) simp
  qed
qed

lemma hashToPoint_loop_returns:
  "\<exists>pt. hashToPoint_loop x = Some pt \<and> hashToPoint_iter (nat fieldOrder) x = Some pt \<and>
        accepted (px pt) \<and> py pt = Exp (curve_rhs (px pt)) sqRoot fieldOrder \<and>
        x \<le> px pt \<and> px pt < x + fieldOrder"
proof -
  let ?d = "nat ((unit_abscissa - x) mod fieldOrder)"
  have bound: "(unit_abscissa - x) mod fieldOrder < fieldOrder"
    using fieldOrder_pos by simp
  from hashToPoint_loop_search [of x ?d] obtain pt where
    pt: "hashToPoint_loop x = Some pt" "hashToPoint_iter (Suc ?d) x = Some pt"
      "accepted (px pt)" "py pt = Exp (curve_rhs (px pt)) sqRoot fieldOrder"
      "x \<le> px pt" "px pt \<le> x + int ?d"
    by blast
  have "Suc ?d \<le> nat fieldOrder"
    using bound fieldOrder_pos by linarith
  with pt(2) have "hashToPoint_iter (nat fieldOrder) x = Some pt"
    by (rule hashToPoint_iter_mono)
  moreover have "px pt < x + fieldOrder"
    using pt(6) bound fieldOrder_pos by linarith
  ultimately show ?thesis
    using pt by blast
qed

lemma accepted_on_curve:
  assumes "accepted x" and "y = Exp (curve_rhs x) sqRoot fieldOrder"
  shows "y ^ 2 mod fieldOrder = (x ^ 3 + 7) mod fieldOrder" and "0 \<le> y" and "y < fieldOrder"
proof -
  show "y ^ 2 mod fieldOrder = (x ^ 3 + 7) mod fieldOrder"
    using assms by (simp add: accepted_def curve_rhs_def Exp_def mod_add_left_eq)
  show "0 \<le> y" "y < fieldOrder"
    using assms(2) fieldOrder_pos by (simp_all add: Exp_def)
qed

lemma SetBytes_unit_sponge: "SetBytes (Keccak256 unit_sponge [data]) = unit_abscissa"
  by (simp add: SetBytes_def Keccak256_def unit_sponge_def unit_abscissa_def)

lemma hashToPoint_unit_sponge:
  "hashToPoint unit_sponge data = Some \<lparr>px = unit_abscissa, py = 1\<rparr>"
proof -
  have "(1::int) mod fieldOrder = 1"
    by (simp add: fieldOrder_def)
  then have "Exp (curve_rhs unit_abscissa) sqRoot fieldOrder = 1"
    by (simp add: curve_rhs_unit_abscissa Exp_def)
  then show ?thesis
    unfolding hashToPoint_def SetBytes_unit_sponge
    by (subst hashToPoint_loop_unfold) (simp add: accepted_unit_abscissa)
qed

subsection \<open>Termination and the curve equation\<close>

text \<open>
  The source's loop keeps no iteration counter and has no failure return. It ends on
  every input all the same: \<open>fieldOrder\<close> iterations always suffice, since the loop's
  test depends only on the candidate modulo \<open>fieldOrder\<close> and one residue is known to
  pass it.
\<close>

lemma hashToPoint_returns_within_fieldOrder:
  "\<exists>pt. hashToPoint sponge data = Some pt \<and>
        hashToPoint_iter (nat fieldOrder) (SetBytes (Keccak256 sponge [data])) = Some pt"
  using hashToPoint_loop_returns [of "SetBytes (Keccak256 sponge [data])"]
  unfolding hashToPoint_def by blast

text \<open>
  The returned point \<open>(x, y)\<close> has \<open>y\<^sup>2 = x\<^sup>3 + 7\<close> modulo \<open>fieldOrder\<close> and
  \<open>0 \<le> y < fieldOrder\<close>. The abscissa is the digest read as an integer plus the
  number of rejected candidates; the source does not reduce it modulo \<open>fieldOrder\<close>.
\<close>

lemma hashToPoint_satisfies_curve_equation:
  "\<exists>pt. hashToPoint sponge data = Some pt \<and>
        (py pt) ^ 2 mod fieldOrder = ((px pt) ^ 3 + 7) mod fieldOrder \<and>
        0 \<le> py pt \<and> py pt < fieldOrder \<and>
        SetBytes (Keccak256 sponge [data]) \<le> px pt \<and>
        px pt < SetBytes (Keccak256 sponge [data]) + fieldOrder"
proof -
  from hashToPoint_loop_returns [of "SetBytes (Keccak256 sponge [data])"] obtain pt where
    pt: "hashToPoint_loop (SetBytes (Keccak256 sponge [data])) = Some pt"
      "accepted (px pt)" "py pt = Exp (curve_rhs (px pt)) sqRoot fieldOrder"
      "SetBytes (Keccak256 sponge [data]) \<le> px pt"
      "px pt < SetBytes (Keccak256 sponge [data]) + fieldOrder"
    by blast
  from accepted_on_curve [OF pt(2) pt(3)] pt show ?thesis
    unfolding hashToPoint_def by blast
qed

subsection \<open>Claim about hashToPoint\<close>

text \<open>
  C9. \<open>hashToPoint\<close> is deterministic: two invocations on the same input both return,
  and they return the same point. (The sponge is a function of the bytes written, and
  the loop reads nothing but its candidate and the package constants.)
\<close>

theorem hashToPoint_deterministic:
  "data = data' \<Longrightarrow>
   \<exists>pt. hashToPoint sponge data = Some pt \<and> hashToPoint sponge data' = Some pt"
  using hashToPoint_loop_returns [of "SetBytes (Keccak256 sponge [data])"]
  unfolding hashToPoint_def by blast

theorem hashToPoint_deterministic_witness:
  "([] :: byte list) = [] \<and>
   hashToPoint unit_sponge [] = Some \<lparr>px = unit_abscissa, py = 1\<rparr> \<and>
   (\<exists>pt. hashToPoint unit_sponge [] = Some pt \<and> hashToPoint unit_sponge [] = Some pt)"
  using hashToPoint_deterministic [of "[]" "[]" unit_sponge] hashToPoint_unit_sponge [of "[]"]
  by simp

section \<open>Properties of polyEval\<close>


text \<open>
  C1. \<open>polyEval\<close> is meant to return \<open>p(i)\<close> by Horner's method modulo the group order.
  At the polynomial \<open>x\<^sup>3\<close> (coefficients 0, 0, 0, 1, threshold 4) and the index 2 it
  returns 16, where Horner's method gives \<open>2\<^sup>3 = 8\<close>: the loop squares the evaluation
  point after each term, so the term of degree 3 is multiplied by \<open>2\<^sup>4\<close>.
\<close>

theorem polyEval_squares_evaluation_point:
  "polyEval \<lparr>coeff = [0, 0, 0, 1], threshold = 4\<rparr> 2 = Inr 16 \<and>
   evaluate_spec [0, 0, 0, 1] 2 = 8"
  by (simp add: polyEval_def polyEval_loop.simps evaluate_spec_def fieldOrder_def generatorOrder_def)




section \<open>Properties of createDlEQProof and batchCreateDLEQProof\<close>

lemma createDlEQProof_challenge:
  "proof_c (createDlEQProof s sponge v secret nodePubKey) =
     SetBytes (sponge
       (Bytes (fst (ScalarBaseMult s (Bytes secret))) @ Bytes (snd (ScalarBaseMult s (Bytes secret))) @
        Bytes (fst (ScalarMult s (px nodePubKey) (py nodePubKey) (Bytes secret))) @
        Bytes (snd (ScalarMult s (px nodePubKey) (py nodePubKey) (Bytes secret))) @
        Bytes (fst (ScalarBaseMult s (Bytes v))) @ Bytes (snd (ScalarBaseMult s (Bytes v))) @
        Bytes (fst (ScalarMult s (px nodePubKey) (py nodePubKey) (Bytes v))) @
        Bytes (snd (ScalarMult s (px nodePubKey) (py nodePubKey) (Bytes v)))))"
  by (simp add: createDlEQProof_def Let_def Keccak256_def mkPoint_def)

lemma createDlEQProof_response:
  "proof_r (createDlEQProof s sponge v secret nodePubKey) =
     v - proof_c (createDlEQProof s sponge v secret nodePubKey) * secret mod fieldOrder"
  by (simp add: createDlEQProof_def Let_def)

lemma SetBytes_digest_a:
  "SetBytes digest_a = 95769452253088775291125361494199721130906066839964968360879582502916370552316"
  by (simp add: SetBytes_def digest_a_def)

lemma SetBytes_digest_b:
  "SetBytes digest_b = 59793322085045707354280422299477187980783337804963408364921805551768703515600"
  by (simp add: SetBytes_def digest_b_def)

text \<open>
  C6. The response is meant to be \<open>v - c * x\<close> reduced modulo the group order, in
  \<open>[0, generatorOrder)\<close>. The code returns \<open>v\<close> minus \<open>c * x\<close> reduced modulo
  \<open>fieldOrder\<close>. For the secret 1 and the nonce 1, with the digest \<open>digest_a\<close>,
  the code returns \<open>1 - c\<close>, a negative number, where the reduced value is
  \<open>generatorOrder + 1 - c\<close>.
\<close>

theorem createDlEQProof_response_not_canonical:
  "proof_r (createDlEQProof s sponge v secret nodePubKey) =
     v - proof_c (createDlEQProof s sponge v secret nodePubKey) * secret mod fieldOrder \<and>
   proof_r (createDlEQProof s sponge_a 1 1 nodePubKey) =
     - 95769452253088775291125361494199721130906066839964968360879582502916370552315 \<and>
   (1 - proof_c (createDlEQProof s sponge_a 1 1 nodePubKey) * 1) mod generatorOrder =
     20022636984227420132445623514488186721931497439109936021725580638601790942022"
proof -
  have "proof_c (createDlEQProof s sponge_a 1 1 nodePubKey) =
      95769452253088775291125361494199721130906066839964968360879582502916370552316"
    by (simp add: createDlEQProof_challenge sponge_a_def SetBytes_digest_a)
  then show ?thesis
    by (simp add: createDlEQProof_response fieldOrder_def generatorOrder_def)
qed

lemma SetBytes_snoc: "SetBytes (bs @ [b]) = SetBytes bs * 256 + uint b"
  by (simp add: SetBytes_def)

lemma uint_byte_of_nat: "uint (of_nat (m mod 256) :: byte) = int (m mod 256)"
proof -
  have "unat (of_nat (m mod 256) :: byte) = m mod 256"
    by (simp add: unat_of_nat)
  then show ?thesis
    by (simp only: uint_nat)
qed

lemma SetBytes_Bytes_nat: "SetBytes (Bytes_nat m) = int m"
proof (induction m rule: Bytes_nat.induct)
  case (1 n)
  show ?case
  proof (cases "n = 0")
    case True
    then show ?thesis
      by (simp add: Bytes_nat.simps SetBytes_def)
  next
    case False
    have "SetBytes (Bytes_nat n) = SetBytes (Bytes_nat (n div 256)) * 256 + int (n mod 256)"
      using False by (subst Bytes_nat.simps) (simp add: SetBytes_snoc uint_byte_of_nat)
    also have "\<dots> = int (n div 256) * 256 + int (n mod 256)"
      using "1.IH" [OF False] by simp
    also have "\<dots> = int n"
      by (simp add: zmod_int zdiv_int)
    finally show ?thesis .
  qed
qed

lemma SetBytes_Bytes: "SetBytes (Bytes k) = \<bar>k\<bar>"
  by (simp add: Bytes_def SetBytes_Bytes_nat)

lemma generatorOrder_pos: "0 < generatorOrder"
  by (simp add: generatorOrder_def)

lemma SetBytes_Bytes_mod: "SetBytes (Bytes (k mod generatorOrder)) = k mod generatorOrder"
  using generatorOrder_pos by (simp add: SetBytes_Bytes)

lemma Verify_spec_generated:
  assumes grp: "cyclic_group s mult_G"
    and key: "nodePubKey = mkPoint (mult_G d)"
    and nonneg: "0 \<le> secret" "0 \<le> v"
  shows "Verify_spec s sponge (createDlEQProof s sponge v secret nodePubKey) nodePubKey \<longleftrightarrow>
         generatorOrder dvd
           fieldOrder * (proof_c (createDlEQProof s sponge v secret nodePubKey) * secret div fieldOrder)"
proof -
  let ?P = "createDlEQProof s sponge v secret nodePubKey"
  let ?c = "proof_c ?P" and ?r = "proof_r ?P"
  let ?n = generatorOrder
  from grp have inj: "\<And>a b. (mult_G a = mult_G b) = (a mod ?n = b mod ?n)"
    and base: "\<And>k. ScalarBaseMult s k = mult_G (SetBytes k)"
    and mult: "\<And>a k. ScalarMult s (fst (mult_G a)) (snd (mult_G a)) k = mult_G (a * SetBytes k)"
    and add: "\<And>a b. Add s (fst (mult_G a)) (snd (mult_G a)) (fst (mult_G b)) (snd (mult_G b)) =
            mult_G (a + b)"
    unfolding cyclic_group_def by blast+
  have mk_inj: "\<And>p q. (mkPoint p = mkPoint q) = (p = q)"
    by (auto simp: mkPoint_def prod_eq_iff)
  have kx: "px nodePubKey = fst (mult_G d)" and ky: "py nodePubKey = snd (mult_G d)"
    by (simp_all add: key mkPoint_def)
  have xG: "proof_xG ?P = mkPoint (mult_G secret)"
    using nonneg by (simp add: createDlEQProof_def Let_def base SetBytes_Bytes)
  have vG: "proof_vG ?P = mkPoint (mult_G v)"
    using nonneg by (simp add: createDlEQProof_def Let_def base SetBytes_Bytes)
  have xH: "proof_xH ?P = mkPoint (mult_G (d * secret))"
    using nonneg by (simp add: createDlEQProof_def Let_def kx ky mult SetBytes_Bytes)
  have vH: "proof_vH ?P = mkPoint (mult_G (d * v))"
    using nonneg by (simp add: createDlEQProof_def Let_def kx ky mult SetBytes_Bytes)
  have c3: "SetBytes (Keccak256 sponge [concat (map (\<lambda>element. Bytes (px element) @ Bytes (py element))
                 [proof_xG ?P, proof_xH ?P, proof_vG ?P, proof_vH ?P])]) = ?c"
    by (simp add: createDlEQProof_def Let_def)
  have chk1: "mkPoint (Add s (fst (ScalarBaseMult s (Bytes (?r mod ?n))))
                 (snd (ScalarBaseMult s (Bytes (?r mod ?n))))
                 (fst (ScalarMult s (px (proof_xG ?P)) (py (proof_xG ?P)) (Bytes (?c mod ?n))))
                 (snd (ScalarMult s (px (proof_xG ?P)) (py (proof_xG ?P)) (Bytes (?c mod ?n)))))
               = mkPoint (mult_G (?r mod ?n + secret * (?c mod ?n)))"
    by (simp add: xG base mkPoint_def mult add SetBytes_Bytes_mod)
  have chk2: "mkPoint (Add s (fst (ScalarMult s (px nodePubKey) (py nodePubKey) (Bytes (?r mod ?n))))
                 (snd (ScalarMult s (px nodePubKey) (py nodePubKey) (Bytes (?r mod ?n))))
                 (fst (ScalarMult s (px (proof_xH ?P)) (py (proof_xH ?P)) (Bytes (?c mod ?n))))
                 (snd (ScalarMult s (px (proof_xH ?P)) (py (proof_xH ?P)) (Bytes (?c mod ?n)))))
               = mkPoint (mult_G (d * (?r mod ?n) + d * secret * (?c mod ?n)))"
    by (simp add: xH kx ky mkPoint_def mult add SetBytes_Bytes_mod)
  have verify: "Verify_spec s sponge ?P nodePubKey \<longleftrightarrow>
      (?r mod ?n + secret * (?c mod ?n)) mod ?n = v mod ?n \<and>
      (d * (?r mod ?n) + d * secret * (?c mod ?n)) mod ?n = (d * v) mod ?n"
    apply (simp only: Verify_spec_def Let_def)
    apply (simp only: c3 chk1 chk2)
    apply (simp only: vG vH mk_inj inj)
    apply simp
    done
  have e1: "(?r mod ?n + secret * (?c mod ?n)) mod ?n = (?r + ?c * secret) mod ?n"
  proof -
    have "secret * (?c mod ?n) mod ?n = ?c * secret mod ?n"
      by (simp add: mod_mult_right_eq mult.commute)
    moreover have "?r mod ?n mod ?n = ?r mod ?n"
      by simp
    ultimately show ?thesis
      by (rule mod_add_cong [rotated])
  qed
  have e2: "(d * (?r mod ?n) + d * secret * (?c mod ?n)) mod ?n = (d * (?r + ?c * secret)) mod ?n"
  proof -
    have "d * secret * (?c mod ?n) mod ?n = d * secret * ?c mod ?n"
      by (simp add: mod_mult_right_eq)
    moreover have "d * (?r mod ?n) mod ?n = d * ?r mod ?n"
      by (simp add: mod_mult_right_eq)
    ultimately have "(d * (?r mod ?n) + d * secret * (?c mod ?n)) mod ?n =
        (d * ?r + d * secret * ?c) mod ?n"
      by (rule mod_add_cong [rotated])
    also have "d * ?r + d * secret * ?c = d * (?r + ?c * secret)"
      by (simp add: algebra_simps)
    finally show ?thesis .
  qed
  have first_implies_second:
    "(?r + ?c * secret) mod ?n = v mod ?n \<Longrightarrow> (d * (?r + ?c * secret)) mod ?n = (d * v) mod ?n"
    by (metis mod_mult_right_eq)
  have "Verify_spec s sponge ?P nodePubKey \<longleftrightarrow> (?r + ?c * secret) mod ?n = v mod ?n"
    unfolding verify e1 e2 using first_implies_second by blast
  also have "\<dots> \<longleftrightarrow> ?n dvd (?r + ?c * secret - v)"
    by (simp add: mod_eq_dvd_iff)
  also have "?r + ?c * secret - v = fieldOrder * (?c * secret div fieldOrder)"
  proof -
    have "?c * secret - ?c * secret mod fieldOrder = fieldOrder * (?c * secret div fieldOrder)"
      by (rule minus_mod_eq_mult_div)
    then show ?thesis
      by (simp add: createDlEQProof_response)
  qed
  finally show ?thesis .
qed

lemma cyclic_group_toy_curve: "cyclic_group toy_curve toy_mult"
  by (simp add: cyclic_group_def toy_curve_def toy_mult_def mod_mult_left_eq mod_add_eq)

lemma digest_b_rejected:
  "\<not> generatorOrder dvd
      fieldOrder * (proof_c (createDlEQProof s sponge_b 1 3 nodePubKey) * 3 div fieldOrder)"
proof -
  have c: "proof_c (createDlEQProof s sponge_b 1 3 nodePubKey) =
      59793322085045707354280422299477187980783337804963408364921805551768703515600"
    by (simp add: createDlEQProof_challenge sponge_b_def SetBytes_digest_b)
  have "(59793322085045707354280422299477187980783337804963408364921805551768703515600 * 3) div fieldOrder = (1::int)"
    by (simp add: fieldOrder_def)
  moreover have "fieldOrder mod generatorOrder = 432420386565659656852420866390673177326"
    by (simp add: fieldOrder_def generatorOrder_def)
  ultimately show ?thesis
    unfolding c by (simp add: dvd_eq_mod_eq_0)
qed

text \<open>
  C2. A generated proof is meant to pass the verification checks for the base it was
  generated for. On a curve that is a cyclic group of order \<open>generatorOrder\<close>, the proof
  generated for the secret 3 with the nonce 1 and the digest \<open>digest_b\<close> is rejected,
  whatever the node key: the code's \<open>r + c * x - v\<close> is \<open>fieldOrder\<close>, the multiple
  \<open>fieldOrder * (c * x div fieldOrder)\<close> of \<open>fieldOrder\<close>, and not a multiple of
  \<open>generatorOrder\<close>.
\<close>

theorem createDlEQProof_fails_verification:
  assumes "cyclic_group s mult_G" and "nodePubKey = mkPoint (mult_G d)"
  shows "\<not> Verify_spec s sponge_b (createDlEQProof s sponge_b 1 3 nodePubKey) nodePubKey"
  using Verify_spec_generated [OF assms, of 3 1 sponge_b] digest_b_rejected [of s nodePubKey]
  by simp

theorem createDlEQProof_fails_verification_witness:
  "cyclic_group toy_curve toy_mult \<and>
   \<not> Verify_spec toy_curve sponge_b
        (createDlEQProof toy_curve sponge_b 1 3 (mkPoint (toy_mult 1))) (mkPoint (toy_mult 1))"
  using createDlEQProof_fails_verification [OF cyclic_group_toy_curve refl, of 1]
    cyclic_group_toy_curve
  by simp

lemma batchCreateDLEQProof_loop_inv:
  assumes "length shares = length nodes" and "length proofs = length nodes" and "i \<le> length nodes"
  shows "batchCreateDLEQProof_loop s sponge rnd nodes shares i proofs =
           Inr (take i proofs @
                map (\<lambda>k. Some (createDlEQProof s sponge (rnd k) (Value (shares ! k)) (nodes ! k)))
                  [i..<length nodes])"
  using assms
proof (induction s sponge rnd nodes shares i proofs rule: batchCreateDLEQProof_loop.induct)
  case (1 s sponge rnd nodes shares i proofs)
  let ?mk = "\<lambda>k. Some (createDlEQProof s sponge (rnd k) (Value (shares ! k)) (nodes ! k))"
  show ?case
  proof (cases "i < length nodes")
    case False
    with "1.prems" show ?thesis
      by (subst batchCreateDLEQProof_loop.simps) simp
  next
    case True
    with "1.prems" have inb: "i < length shares \<and> i < length proofs"
      by simp
    have "batchCreateDLEQProof_loop s sponge rnd nodes shares i proofs =
        batchCreateDLEQProof_loop s sponge rnd nodes shares (i + 1) (proofs[i := ?mk i])"
      using True inb by (subst batchCreateDLEQProof_loop.simps) simp
    also have "\<dots> = Inr (take (i + 1) (proofs[i := ?mk i]) @ map ?mk [i + 1..<length nodes])"
      using True "1.prems" by (intro "1.IH" [OF True inb]) simp_all
    also have "take (i + 1) (proofs[i := ?mk i]) = take i proofs @ [?mk i]"
      using inb by (simp add: take_Suc_conv_app_nth)
    also have "(take i proofs @ [?mk i]) @ map ?mk [i + 1..<length nodes] =
        take i proofs @ map ?mk [i..<length nodes]"
      using True by (simp add: upt_conv_Cons)
    finally show ?thesis .
  qed
qed

text \<open>
  C7. \<open>batchCreateDLEQProof\<close> fails, returning \<open>nil\<close>, when the node list and the share
  list differ in length. Otherwise it never panics and returns exactly one proof per
  (node, share) pair, the \<open>i\<close>-th one generated from \<open>shares[i].Value\<close> and \<open>nodes[i]\<close>.
\<close>

theorem batchCreateDLEQProof_result:
  "batchCreateDLEQProof s sponge rnd nodes shares =
     (if length nodes = length shares
      then Inr (Some (map (\<lambda>i. Some (createDlEQProof s sponge (rnd i) (Value (shares ! i)) (nodes ! i)))
                        [0..<length nodes]))
      else Inr None)"
  by (simp add: batchCreateDLEQProof_def batchCreateDLEQProof_loop_inv)

section \<open>Properties of encShares and DecShare\<close>

lemma Bytes_5: "Bytes 5 = [5]"
  by (simp add: Bytes_def Bytes_nat.simps)

text \<open>
  C4. \<open>encShares\<close> is meant to output the commitments with, for each node, the share
  encrypted to the node's key and a proof. For two nodes, the secret 5 and the
  threshold 1 it computes the shares 5 and 5 and the commitment of 5, leaves both
  encrypted shares at 0 whatever the node keys are, and creates no proof.
\<close>

theorem encShares_leaves_shares_unencrypted:
  "encShares s rnd [pk1, pk2] 5 1 = Inr ([0, 0], [5, 5], [mkPoint (ScalarBaseMult s [5])])"
  by (simp add: encShares_def getShares_def getCommit_def polyEval_def polyEval_loop.simps
      Let_def Bytes_5 upt_rec numeral_2_eq_2)

text \<open>
  C3. \<open>DecShare\<close> is meant to return the point \<open>d\<^sup>-\<^sup>1 * S\<close>. It returns the integer 0
  for every encrypted share, proof and key.
\<close>

theorem DecShare_returns_zero:
  "DecShare encShareX encShareY consistencyProof key = 0"
  by (simp add: DecShare_def Let_def)

end
